theory Spec2Isabelle
  imports Main "HOL-Library.Char_ord" "HOL-Library.List_Lexorder" "HOL-Library.Word"
begin

section \<open>Strings as the plugin uses them\<close>

text \<open>
  File names are modelled as \<^typ>\<open>string\<close>. \<open>str.lower()\<close> is modelled on the ASCII
  letters; every name and extension the plugin compares against is ASCII.
\<close>

definition upper_letters :: string where
  "upper_letters = ''ABCDEFGHIJKLMNOPQRSTUVWXYZ''"

definition lower_letters :: string where
  "lower_letters = ''abcdefghijklmnopqrstuvwxyz''"

definition lower_char :: "char \<Rightarrow> char" where
  "lower_char c = (case map_of (zip upper_letters lower_letters) c of None \<Rightarrow> c | Some d \<Rightarrow> d)"

definition lower :: "string \<Rightarrow> string" where
  "lower s = map lower_char s"

definition endswith :: "string \<Rightarrow> string \<Rightarrow> bool" where
  "endswith s suf = (length suf \<le> length s \<and> drop (length s - length suf) s = suf)"

definition startswith :: "string \<Rightarrow> string \<Rightarrow> bool" where
  "startswith s pre = (take (length pre) s = pre)"

text \<open>\<open>s.endswith(tuple)\<close>: some member of the tuple is a suffix of \<open>s\<close>.\<close>

definition endswith_any :: "string \<Rightarrow> string list \<Rightarrow> bool" where
  "endswith_any s sufs = (\<exists>suf \<in> set sufs. endswith s suf)"

text \<open>\<open>s.rfind(c)\<close>: the index of the last occurrence, \<open>None\<close> for Python's \<open>-1\<close>.\<close>

fun rfind :: "'a \<Rightarrow> 'a list \<Rightarrow> nat option" where
  "rfind c [] = None"
| "rfind c (x # xs) =
     (case rfind c xs of
        Some i \<Rightarrow> Some (Suc i)
      | None \<Rightarrow> if x = c then Some 0 else None)"

definition lstrip_dot :: "string \<Rightarrow> string" where
  "lstrip_dot s = dropWhile (\<lambda>c. c = CHR ''.'') s"

subsection \<open>pathlib on relative POSIX strings\<close>

text \<open>
  \<open>PurePath.suffix\<close> of a final path component: the text from the last dot on, unless
  that dot is the first or the last character of the name.
\<close>

definition name_suffix :: "string \<Rightarrow> string" where
  "name_suffix nm =
     (case rfind (CHR ''.'') nm of
        None \<Rightarrow> ''''
      | Some i \<Rightarrow> if 0 < i \<and> i < length nm - 1 then drop i nm else '''')"

text \<open>\<open>Path(rel).name\<close> for a string whose components are joined by \<open>/\<close>.\<close>

definition path_name :: "string \<Rightarrow> string" where
  "path_name rel = (case rfind (CHR ''/'') rel of None \<Rightarrow> rel | Some i \<Rightarrow> drop (Suc i) rel)"

definition path_suffix :: "string \<Rightarrow> string" where
  "path_suffix rel = name_suffix (path_name rel)"

text \<open>\<open>Path(rel).with_suffix("").as_posix()\<close>.\<close>

definition strip_suffix :: "string \<Rightarrow> string" where
  "strip_suffix rel = take (length rel - length (path_suffix rel)) rel"

text \<open>\<open>as_posix()\<close> of a relative path given by its components.\<close>

fun as_posix :: "string list \<Rightarrow> string" where
  "as_posix [] = ''.''"
| "as_posix [p] = p"
| "as_posix (p # q # ps) = p @ ''/'' @ as_posix (q # ps)"

section \<open>Layered override resolver (\<open>Kotor2TextureTab.refresh\<close>)\<close>

text \<open>
  An override root is the list of regular files that \<open>root.rglob("*")\<close> yields, each as
  the components of its parent directory relative to the root and its file name. A file
  name read from a directory holds no separator.
\<close>

type_synonym fs_file = "string list \<times> string"

type_synonym override_root = "string \<times> fs_file list"

definition EXTENSIONS :: "string list" where
  "EXTENSIONS = [''.tga'', ''.tpc'', ''.txi'', ''.dds'']"

definition WEIGHT_NONE :: nat where "WEIGHT_NONE = 0"
definition WEIGHT_HIDDEN :: nat where "WEIGHT_HIDDEN = 1"
definition WEIGHT_MINOR :: nat where "WEIGHT_MINOR = 2"
definition WEIGHT_MAJOR :: nat where "WEIGHT_MAJOR = 3"

text \<open>
  \<open>winners\<close> is a Python dict, kept as an association list in insertion order; a key is
  added only when absent, so keys stay distinct.
\<close>

record scan_state =
  winners :: "(string \<times> (string \<times> string)) list"
  hidden_entries :: "(string \<times> string) list"

definition is_hidden_name :: "string \<Rightarrow> bool" where
  "is_hidden_name nm = endswith nm ''.mohidden''"

definition target_name :: "string \<Rightarrow> string" where
  "target_name nm = (if is_hidden_name nm then take (length nm - 9) nm else nm)"

definition target_ext :: "string \<Rightarrow> string" where
  "target_ext nm = lower (name_suffix (target_name nm))"

definition file_rel :: "fs_file \<Rightarrow> string" where
  "file_rel f =
     (if is_hidden_name (snd f) then as_posix (fst f @ [target_name (snd f)])
      else as_posix (fst f @ [snd f]))"

text \<open>The body of the loop over the files of one root.\<close>

definition scan_file :: "string \<Rightarrow> scan_state \<Rightarrow> fs_file \<Rightarrow> scan_state" where
  "scan_file source st f =
     (if target_ext (snd f) \<notin> set EXTENSIONS then st
      else
        let rel = file_rel f; key = lower rel in
        if is_hidden_name (snd f)
        then st\<lparr>hidden_entries := hidden_entries st @ [(source, rel @ ''.mohidden'')]\<rparr>
        else if map_of (winners st) key = None
        then st\<lparr>winners := winners st @ [(key, (source, rel))]\<rparr>
        else st)"

definition scan_root :: "scan_state \<Rightarrow> override_root \<Rightarrow> scan_state" where
  "scan_root st src = foldl (scan_file (fst src)) st (snd src)"

definition init_state :: scan_state where
  "init_state = \<lparr>winners = [], hidden_entries = []\<rparr>"

text \<open>
  The two scanning loops: the mod roots in reversed order, then the game override when
  there is one.
\<close>

definition scan_all :: "override_root list \<Rightarrow> override_root option \<Rightarrow> scan_state" where
  "scan_all mod_entries game_entry =
     (let st = foldl scan_root init_state (rev mod_entries) in
      case game_entry of None \<Rightarrow> st | Some g \<Rightarrow> scan_root st g)"



text \<open>
  The split of the roots yielded by \<open>_iter_override_roots\<close>: labels starting with
  \<open>Mod: \<close> are mod roots, the last other root is the game entry.
\<close>

definition mod_entries_of :: "override_root list \<Rightarrow> override_root list" where
  "mod_entries_of roots = filter (\<lambda>r. startswith (fst r) ''Mod: '') roots"

definition game_entry_of :: "override_root list \<Rightarrow> override_root option" where
  "game_entry_of roots =
     (case filter (\<lambda>r. \<not> startswith (fst r) ''Mod: '') roots of
        [] \<Rightarrow> None
      | x # xs \<Rightarrow> Some (last (x # xs)))"

subsection \<open>Entries, conflict groups and the listing\<close>

text \<open>
  Of the dict built for each entry the fields that decide grouping and order are kept;
  the display columns read from \<open>stat()\<close> (size, date) are not modelled.
\<close>

record entry =
  e_source :: string
  e_rel :: string
  e_base :: string
  e_ext :: string
  e_hidden :: bool

definition winner_entry :: "string \<times> string \<Rightarrow> entry" where
  "winner_entry i =
     \<lparr>e_source = fst i, e_rel = snd i,
      e_base = lower (strip_suffix (snd i)),
      e_ext = lstrip_dot (lower (path_suffix (snd i))),
      e_hidden = False\<rparr>"

definition hidden_entry :: "string \<times> string \<Rightarrow> entry" where
  "hidden_entry i =
     (let rel = snd i;
          stem = (if endswith (lower rel) ''.mohidden'' then take (length rel - 9) rel else rel)
      in \<lparr>e_source = fst i, e_rel = rel,
          e_base = lower (strip_suffix stem),
          e_ext = lstrip_dot (lower (path_suffix stem)),
          e_hidden = True\<rparr>)"

text \<open>\<open>items = sorted(winners.values(), key=lambda i: i[1].lower())\<close>.\<close>

definition items_of :: "scan_state \<Rightarrow> (string \<times> string) list" where
  "items_of st = sort_key (\<lambda>i. lower (snd i)) (map snd (winners st))"

definition entries_of :: "scan_state \<Rightarrow> entry list" where
  "entries_of st = map winner_entry (items_of st) @ map hidden_entry (hidden_entries st)"

text \<open>\<open>base_exts.setdefault(base_key, set()).add(ext_lower)\<close> for every item.\<close>

definition add_ext :: "(string \<rightharpoonup> string set) \<Rightarrow> entry \<Rightarrow> (string \<rightharpoonup> string set)" where
  "add_ext m e =
     m(e_base e \<mapsto> insert (e_ext e) (case m (e_base e) of None \<Rightarrow> {} | Some s \<Rightarrow> s))"

definition base_exts :: "entry list \<Rightarrow> (string \<rightharpoonup> string set)" where
  "base_exts es = foldl add_ext Map.empty es"

datatype brush = Major_Brush | Minor_Brush

definition conflict_color :: "string set \<Rightarrow> brush option" where
  "conflict_color exts =
     (if ''tpc'' \<in> exts \<and> ''txi'' \<in> exts then Some Major_Brush
      else if ''tpc'' \<in> exts \<and> ''tga'' \<in> exts then Some Minor_Brush
      else None)"

definition conflict_flag :: "string set \<Rightarrow> string" where
  "conflict_flag exts =
     (if ''tpc'' \<in> exts \<and> ''txi'' \<in> exts then ''!!''
      else if ''tpc'' \<in> exts \<and> ''tga'' \<in> exts then ''!''
      else '''')"

text \<open>The loop over \<open>base_exts.items()\<close> fills both dicts for groups of more than one extension.\<close>

definition conflict_brushes :: "(string \<rightharpoonup> string set) \<Rightarrow> (string \<rightharpoonup> brush)" where
  "conflict_brushes be b =
     (case be b of
        None \<Rightarrow> None
      | Some exts \<Rightarrow> if 1 < card exts then conflict_color exts else None)"

definition conflict_flags :: "(string \<rightharpoonup> string set) \<Rightarrow> (string \<rightharpoonup> string)" where
  "conflict_flags be b =
     (case be b of
        None \<Rightarrow> None
      | Some exts \<Rightarrow> if 1 < card exts then Some (conflict_flag exts) else None)"

definition weight_of_flag :: "string \<Rightarrow> nat" where
  "weight_of_flag flag =
     (if flag = ''!!'' then WEIGHT_MAJOR
      else if flag = ''!'' then WEIGHT_MINOR
      else if flag = ''.'' then WEIGHT_HIDDEN
      else WEIGHT_NONE)"

record row =
  r_flag :: string
  r_entry :: entry
  r_weight :: nat

definition make_row :: "(string \<rightharpoonup> string) \<Rightarrow> entry \<Rightarrow> row" where
  "make_row flags e =
     (let flag = (if e_hidden e then ''.''
                  else case flags (e_base e) of None \<Rightarrow> '''' | Some f \<Rightarrow> f)
      in \<lparr>r_flag = flag, r_entry = e, r_weight = weight_of_flag flag\<rparr>)"

definition rel_key :: "entry \<Rightarrow> string" where
  "rel_key e = lower (e_rel e)"

definition conflict_entries :: "scan_state \<Rightarrow> entry list" where
  "conflict_entries st =
     sort_key rel_key
       (filter (\<lambda>e. conflict_brushes (base_exts (map winner_entry (items_of st))) (e_base e) \<noteq> None
                    \<and> \<not> e_hidden e) (entries_of st))"

definition normal_entries :: "scan_state \<Rightarrow> entry list" where
  "normal_entries st =
     sort_key rel_key
       (filter (\<lambda>e. conflict_brushes (base_exts (map winner_entry (items_of st))) (e_base e) = None
                    \<and> \<not> e_hidden e) (entries_of st))"

definition hidden_only_entries :: "scan_state \<Rightarrow> entry list" where
  "hidden_only_entries st = sort_key rel_key (filter e_hidden (entries_of st))"

text \<open>The rows in the order in which they are added to the tree widget.\<close>

definition added_rows :: "scan_state \<Rightarrow> row list" where
  "added_rows st =
     map (make_row (conflict_flags (base_exts (map winner_entry (items_of st)))))
       (conflict_entries st @ normal_entries st @ hidden_only_entries st)"

text \<open>
  Modelled from the spec: \<open>QTreeWidget.sortItems\<close> is the host's; the plugin supplies the
  comparison \<open>_TextureItem.__lt__\<close> (smaller weight is less) and asks for descending
  order on column 0. The host's sort is taken to be stable, so that rows of equal
  weight keep the order in which they were added.
\<close>

definition sortItems_descending :: "row list \<Rightarrow> row list" where
  "sortItems_descending rs = sort_key (\<lambda>r. - int (r_weight r)) rs"

definition listing :: "scan_state \<Rightarrow> row list" where
  "listing st = sortItems_descending (added_rows st)"

definition refresh :: "override_root list \<Rightarrow> row list" where
  "refresh roots = listing (scan_all (mod_entries_of roots) (game_entry_of roots))"





text \<open>What every row of the listing satisfies: a known flag, the weight of that flag, and the hidden flag exactly on hidden entries.\<close>

definition row_ok :: "row \<Rightarrow> bool" where
  "row_ok r = (r_flag r \<in> {''!!'', ''!'', ''.'', ''''} \<and> r_weight r = weight_of_flag (r_flag r) \<and>
               (r_flag r = ''.'') = e_hidden (r_entry r))"

section \<open>Thumbnail decoder (\<open>Kotor2SaveGame.getScreenshot\<close>)\<close>












section \<open>Hiding and unhiding a file (\<open>Kotor2TextureTab._toggle_hidden\<close>)\<close>

text \<open>
  A path is its parent directory and its file name; the file system maps the paths of
  the files that exist to their contents.
\<close>

type_synonym fpath = "string \<times> string"

type_synonym 'c filesystem = "fpath \<rightharpoonup> 'c"

definition with_name :: "fpath \<Rightarrow> string \<Rightarrow> fpath" where
  "with_name p nm = (fst p, nm)"

text \<open>
  Modelled from the spec: \<open>Path.rename\<close> is the operating system's. It raises when the
  source does not exist or when another file has the target name; otherwise the content
  moves to the new name.
\<close>

definition rename :: "'c filesystem \<Rightarrow> fpath \<Rightarrow> fpath \<Rightarrow> 'c filesystem option" where
  "rename fs old new =
     (case fs old of
        None \<Rightarrow> None
      | Some c \<Rightarrow> if new \<noteq> old \<and> fs new \<noteq> None then None else Some ((fs(old := None))(new \<mapsto> c)))"

text \<open>
  The result is the file system after the call and the list of renames that were
  attempted. An exception of \<open>rename\<close> is caught and logged: the file system stays as it
  was. The \<open>refresh\<close> of the \<open>finally\<close> clause only reads.
\<close>

definition try_rename :: "'c filesystem \<Rightarrow> fpath \<Rightarrow> fpath \<Rightarrow> 'c filesystem \<times> (fpath \<times> fpath) list" where
  "try_rename fs old new =
     (case rename fs old new of None \<Rightarrow> (fs, [(old, new)]) | Some fs' \<Rightarrow> (fs', [(old, new)]))"

definition toggle_hidden ::
  "'c filesystem \<Rightarrow> fpath \<Rightarrow> bool \<Rightarrow> 'c filesystem \<times> (fpath \<times> fpath) list" where
  "toggle_hidden fs path currently_hidden =
     (if currently_hidden \<and> endswith (snd path) ''.mohidden''
      then try_rename fs path (with_name path (take (length (snd path) - 9) (snd path)))
      else if \<not> currently_hidden
      then try_rename fs path (with_name path (snd path @ ''.mohidden''))
      else (fs, []))"

section \<open>Layout classifier and normalizer (\<open>Kotor2ModDataChecker\<close>)\<close>

text \<open>
  The virtual file tree: a file has a name and a payload, a directory a name and its
  children in iteration order. A tree is the list of the children of the root, which has
  no name of its own. Entry names hold no path separator.
\<close>

datatype 'a node = File string 'a | Dir string "'a node list"

fun node_name :: "'a node \<Rightarrow> string" where
  "node_name (File n a) = n"
| "node_name (Dir n cs) = n"

fun is_directory :: "'a node \<Rightarrow> bool" where
  "is_directory (File n a) = False"
| "is_directory (Dir n cs) = True"

fun children :: "'a node \<Rightarrow> 'a node list" where
  "children (File n a) = []"
| "children (Dir n cs) = cs"

type_synonym 'a tree = "'a node list"

datatype verdict = VALID | FIXABLE | INVALID

definition valid_map :: "(string \<times> string list) list" where
  "valid_map =
     [(''override'', [''.tga'', ''.dds'', ''.mdl'', ''.mdx'', ''.uti'', ''.utc'', ''.ncs'', ''.nss'',
                      ''.2da'', ''.dlg'', ''.wav'', ''.mp3'', ''.bik'', ''.txi'', ''.tpc'']),
      (''movies'', [''.bik'']),
      (''data'', [''.bif'']),
      (''lips'', [''.mod'']),
      (''modules'', [''.erf'', ''.rim'', ''.mod'']),
      (''streammusic'', [''.wav'']),
      (''streamsounds'', [''.wav'']),
      (''streamvoice'', [''.wav'']),
      (''texturepacks'', [''.erf''])]"

definition ignored_exts :: "string list" where
  "ignored_exts =
     [''.txt'', ''.pdf'', ''.png'', ''.jpg'', ''.jpeg'', ''.bmp'', ''.gif'', ''.md'', ''.rtf'',
      ''.doc'', ''.docx'', ''.ini'', ''.html'', ''.url'', ''.log'', ''.bak'', ''.xml'', ''.docx#'']"

definition restricted_dirs :: "string list" where
  "restricted_dirs = [''data'']"

definition valid_keys :: "string list" where
  "valid_keys = map fst valid_map"

definition all_valid_exts :: "string list" where
  "all_valid_exts = concat (map snd valid_map)"

definition valid_top :: "string list" where
  "valid_top = valid_keys @ [''override'', ''tslpatchdata'']"

text \<open>
  The extension part of \<open>os.path.splitext\<close> on a name without separators: from the last
  dot on, unless only dots precede it.
\<close>

definition splitext_ext :: "string \<Rightarrow> string" where
  "splitext_ext nm =
     (case rfind (CHR ''.'') nm of
        None \<Rightarrow> ''''
      | Some i \<Rightarrow> if \<exists>c \<in> set (take i nm). c \<noteq> CHR ''.'' then drop i nm else '''')"

subsection \<open>Helpers\<close>

text \<open>\<open>_iter_dirs\<close>: every directory below the root, parents before their children.\<close>

fun iter_dirs :: "'a node list \<Rightarrow> 'a node list" where
  "iter_dirs [] = []"
| "iter_dirs (File n a # es) = iter_dirs es"
| "iter_dirs (Dir n cs # es) = Dir n cs # iter_dirs cs @ iter_dirs es"

definition find_dirs_named :: "'a node list \<Rightarrow> string \<Rightarrow> 'a node list" where
  "find_dirs_named t name_lower =
     filter (\<lambda>d. lower (node_name d) = lower name_lower) (iter_dirs t)"


text \<open>
  The same walk, each directory with the answer of \<open>parent_has_valid_dir\<close>: whether a
  proper ancestor below the root bears a name of the valid map.
\<close>

fun iter_dirs_under :: "bool \<Rightarrow> 'a node list \<Rightarrow> (bool \<times> 'a node) list" where
  "iter_dirs_under u [] = []"
| "iter_dirs_under u (File n a # es) = iter_dirs_under u es"
| "iter_dirs_under u (Dir n cs # es) =
     (u, Dir n cs) # iter_dirs_under (u \<or> lower n \<in> set valid_keys) cs @ iter_dirs_under u es"

subsection \<open>Validation (\<open>dataLooksValid\<close>)\<close>

definition has_restricted_dir :: "'a tree \<Rightarrow> bool" where
  "has_restricted_dir t = (\<exists>d \<in> set (iter_dirs t). lower (node_name d) \<in> set restricted_dirs)"

text \<open>A file child whose \<open>splitext\<close> extension is not ignored.\<close>

definition has_mod_file :: "'a node \<Rightarrow> bool" where
  "has_mod_file d =
     (\<exists>child \<in> set (children d).
        \<not> is_directory child \<and> splitext_ext (lower (node_name child)) \<notin> set ignored_exts)"

text \<open>
  The loop over the root entries: an unknown root folder holding a mod file, or holding
  a known game folder that holds a file.
\<close>

definition wrapper_folder :: "'a tree \<Rightarrow> bool" where
  "wrapper_folder t =
     (\<exists>entry \<in> set t.
        is_directory entry \<and> lower (node_name entry) \<notin> set valid_keys \<and>
        (has_mod_file entry \<or>
         (\<exists>child \<in> set (children entry).
            is_directory child \<and> lower (node_name child) \<in> set valid_keys \<and>
            (\<exists>grand \<in> set (children child). \<not> is_directory grand))))"

text \<open>The loop over all directories: an unknown folder, not under a known one, holding a mod file.\<close>

definition stray_folder :: "'a tree \<Rightarrow> bool" where
  "stray_folder t =
     (\<exists>ud \<in> set (iter_dirs_under False t).
        lower (node_name (snd ud)) \<notin> set valid_keys \<and> \<not> fst ud \<and> has_mod_file (snd ud))"

definition dataLooksValid :: "'a tree \<Rightarrow> verdict" where
  "dataLooksValid t =
     (if find_dirs_named t ''tslpatchdata'' \<noteq> [] then FIXABLE
      else if has_restricted_dir t then INVALID
      else if wrapper_folder t then FIXABLE
      else if stray_folder t then FIXABLE
      else if \<exists>folder \<in> set valid_keys. find_dirs_named t folder \<noteq> [] then VALID
      else if \<exists>e \<in> set t. \<not> is_directory e \<and> endswith_any (lower (node_name e)) all_valid_exts
      then FIXABLE
      else if \<exists>e \<in> set t. \<not> is_directory e \<and> lower (node_name e) = ''dialog.tlk'' then VALID
      else INVALID)"

subsection \<open>The host's tree operations\<close>








subsection \<open>Root cleanup (\<open>_cleanup_root\<close>)\<close>




subsection \<open>Fixer (\<open>fix\<close>, here \<open>fix_tree\<close>)\<close>

text \<open>
  \<open>QInputDialog.getItem\<close>: from the title and the options to the chosen text and whether
  the dialog was accepted.
\<close>

type_synonym dialog = "string \<Rightarrow> string list \<Rightarrow> string \<times> bool"



















section \<open>Properties of the resolver\<close>

lemmas str_simps = lower_def lower_char_def upper_letters_def lower_letters_def endswith_def
  startswith_def name_suffix_def path_name_def path_suffix_def strip_suffix_def EXTENSIONS_def
  is_hidden_name_def target_name_def target_ext_def file_rel_def lstrip_dot_def

subsection \<open>Winners\<close>















subsection \<open>Hidden entries\<close>





















subsection \<open>Conflict groups\<close>








lemma conflict_flags_examples:
  "map (conflict_flags (base_exts (map winner_entry
      [(''Mod: A'', ''foo/bar.tpc''), (''Mod: B'', ''foo/bar.txi''),
       (''Mod: A'', ''foo/baz.tpc''), (''Mod: B'', ''foo/baz.tga''),
       (''Mod: A'', ''foo/qux.tga''), (''Mod: B'', ''foo/qux.dds''),
       (''Mod: A'', ''foo/one.tpc'')]))) [''foo/bar'', ''foo/baz'', ''foo/qux'', ''foo/one'']
   = [Some ''!!'', Some ''!'', Some '''', None]"
  by code_simp

subsection \<open>Order of the listing\<close>

lemma sorted_split:
  fixes g :: "'a \<Rightarrow> int"
  shows "sorted (map g xs) \<Longrightarrow> xs = filter (\<lambda>x. g x \<le> k) xs @ filter (\<lambda>x. k < g x) xs"
proof (induction xs)
  case Nil
  show ?case by simp
next
  case (Cons x xs)
  then have IH: "xs = filter (\<lambda>x. g x \<le> k) xs @ filter (\<lambda>x. k < g x) xs"
    and le: "\<forall>y \<in> set xs. g x \<le> g y" by auto
  show ?case
  proof (cases "g x \<le> k")
    case True
    with IH show ?thesis by simp
  next
    case False
    with le have "\<forall>y \<in> set xs. k < g y" by auto
    then have "filter (\<lambda>x. g x \<le> k) xs = []" "filter (\<lambda>x. k < g x) xs = xs"
      by (auto simp: filter_empty_conv)
    with False show ?thesis by simp
  qed
qed

lemma sorted_four_classes:
  fixes w :: "'a \<Rightarrow> nat"
  assumes sorted: "sorted (map (\<lambda>x. - int (w x)) xs)"
    and bound: "\<forall>x \<in> set xs. w x \<le> 3"
  shows "xs = filter (\<lambda>x. w x = 3) xs @ filter (\<lambda>x. w x = 2) xs @
              filter (\<lambda>x. w x = 1) xs @ filter (\<lambda>x. w x = 0) xs"
proof -
  let ?g = "\<lambda>x. - int (w x)"
  have s1: "xs = filter (\<lambda>x. ?g x \<le> -3) xs @ filter (\<lambda>x. -3 < ?g x) xs"
    by (rule sorted_split [OF sorted])
  have sorted2: "sorted (map ?g (filter (\<lambda>x. -3 < ?g x) xs))"
    by (rule sorted_filter [OF sorted])
  have s2: "filter (\<lambda>x. -3 < ?g x) xs =
      filter (\<lambda>x. ?g x \<le> -2) (filter (\<lambda>x. -3 < ?g x) xs) @
      filter (\<lambda>x. -2 < ?g x) (filter (\<lambda>x. -3 < ?g x) xs)"
    by (rule sorted_split [OF sorted2])
  have sorted3: "sorted (map ?g (filter (\<lambda>x. -2 < ?g x) (filter (\<lambda>x. -3 < ?g x) xs)))"
    by (rule sorted_filter [OF sorted2])
  have s3: "filter (\<lambda>x. -2 < ?g x) (filter (\<lambda>x. -3 < ?g x) xs) =
      filter (\<lambda>x. ?g x \<le> -1) (filter (\<lambda>x. -2 < ?g x) (filter (\<lambda>x. -3 < ?g x) xs)) @
      filter (\<lambda>x. -1 < ?g x) (filter (\<lambda>x. -2 < ?g x) (filter (\<lambda>x. -3 < ?g x) xs))"
    by (rule sorted_split [OF sorted3])
  have c3: "filter (\<lambda>x. ?g x \<le> -3) xs = filter (\<lambda>x. w x = 3) xs"
    using bound by (intro filter_cong) auto
  have c2: "filter (\<lambda>x. ?g x \<le> -2) (filter (\<lambda>x. -3 < ?g x) xs) = filter (\<lambda>x. w x = 2) xs"
    unfolding filter_filter by (intro filter_cong) auto
  have c1: "filter (\<lambda>x. ?g x \<le> -1) (filter (\<lambda>x. -2 < ?g x) (filter (\<lambda>x. -3 < ?g x) xs)) =
      filter (\<lambda>x. w x = 1) xs"
    unfolding filter_filter by (intro filter_cong) auto
  have c0: "filter (\<lambda>x. -1 < ?g x) (filter (\<lambda>x. -2 < ?g x) (filter (\<lambda>x. -3 < ?g x) xs)) =
      filter (\<lambda>x. w x = 0) xs"
    unfolding filter_filter by (intro filter_cong) auto
  from s1 s2 s3 show ?thesis unfolding c3 c2 c1 c0 by simp
qed

lemma r_flag_make_row:
  "r_flag (make_row flags e) =
     (if e_hidden e then ''.'' else case flags (e_base e) of None \<Rightarrow> '''' | Some f \<Rightarrow> f)"
  by (simp add: make_row_def Let_def)

lemma r_entry_make_row: "r_entry (make_row flags e) = e"
  by (simp add: make_row_def Let_def)

lemma r_weight_make_row: "r_weight (make_row flags e) = weight_of_flag (r_flag (make_row flags e))"
  by (simp add: make_row_def Let_def)

lemma conflict_flag_values: "conflict_flag X \<in> {''!!'', ''!'', ''''}"
  by (simp add: conflict_flag_def)

lemma conflict_flags_values:
  "conflict_flags be b = Some f \<Longrightarrow> f \<in> {''!!'', ''!'', ''''}"
  using conflict_flag_values
  by (auto simp: conflict_flags_def split: option.splits if_splits)

lemma brush_flag:
  "conflict_brushes be b \<noteq> None \<Longrightarrow> conflict_flags be b = Some ''!!'' \<or> conflict_flags be b = Some ''!''"
  by (auto simp: conflict_brushes_def conflict_flags_def conflict_color_def conflict_flag_def
      split: option.splits if_splits)

lemma no_brush_flag:
  "conflict_brushes be b = None \<Longrightarrow> conflict_flags be b = None \<or> conflict_flags be b = Some ''''"
  by (auto simp: conflict_brushes_def conflict_flags_def conflict_color_def conflict_flag_def
      split: option.splits if_splits)

lemma weight_of_flag_cases:
  "f \<in> {''!!'', ''!'', ''.'', ''''} \<Longrightarrow>
     weight_of_flag f \<le> 3 \<and> (weight_of_flag f = 3) = (f = ''!!'') \<and> (weight_of_flag f = 2) = (f = ''!'') \<and>
     (weight_of_flag f = 1) = (f = ''.'') \<and> (weight_of_flag f = 0) = (f = '''')"
  by (auto simp: weight_of_flag_def WEIGHT_NONE_def WEIGHT_HIDDEN_def WEIGHT_MINOR_def WEIGHT_MAJOR_def)

lemma make_row_ok: "row_ok (make_row (conflict_flags be) e)"
proof (cases "e_hidden e")
  case True
  then show ?thesis by (simp add: row_ok_def make_row_def Let_def)
next
  case False
  show ?thesis
  proof (cases "conflict_flags be (e_base e)")
    case None
    with False show ?thesis by (simp add: row_ok_def make_row_def Let_def)
  next
    case (Some f)
    from conflict_flags_values [OF Some] False Some show ?thesis
      by (auto simp: row_ok_def make_row_def Let_def)
  qed
qed

lemma added_rows_ok: "r \<in> set (added_rows st) \<Longrightarrow> row_ok r"
  by (auto simp: added_rows_def make_row_ok)

lemma listing_set: "set (listing st) = set (added_rows st)"
  by (simp add: listing_def sortItems_descending_def)

lemma listing_classes:
  "listing st = filter (\<lambda>r. r_flag r = ''!!'') (listing st) @ filter (\<lambda>r. r_flag r = ''!'') (listing st) @
                filter (\<lambda>r. r_flag r = ''.'') (listing st) @ filter (\<lambda>r. r_flag r = '''') (listing st)"
proof -
  let ?L = "listing st"
  have ok: "\<forall>r \<in> set ?L. row_ok r" using added_rows_ok by (simp add: listing_set)
  have sorted: "sorted (map (\<lambda>r. - int (r_weight r)) ?L)"
    by (simp add: listing_def sortItems_descending_def)
  have bound: "\<forall>r \<in> set ?L. r_weight r \<le> 3"
    using ok weight_of_flag_cases by (auto simp: row_ok_def)
  have eq: "filter (\<lambda>r. r_weight r = weight_of_flag f) ?L = filter (\<lambda>r. r_flag r = f) ?L"
    if "f \<in> {''!!'', ''!'', ''.'', ''''}" for f
  proof (rule filter_cong [OF refl])
    fix r assume "r \<in> set ?L"
    with ok have r: "r_flag r \<in> {''!!'', ''!'', ''.'', ''''}" "r_weight r = weight_of_flag (r_flag r)"
      by (auto simp: row_ok_def)
    from that r(1) show "(r_weight r = weight_of_flag f) = (r_flag r = f)"
      unfolding r(2)
      by (auto simp: weight_of_flag_def WEIGHT_NONE_def WEIGHT_HIDDEN_def WEIGHT_MINOR_def WEIGHT_MAJOR_def)
  qed
  have w: "weight_of_flag ''!!'' = 3" "weight_of_flag ''!'' = 2" "weight_of_flag ''.'' = 1" "weight_of_flag '''' = 0"
    by (simp_all add: weight_of_flag_def WEIGHT_NONE_def WEIGHT_HIDDEN_def WEIGHT_MINOR_def WEIGHT_MAJOR_def)
  from sorted_four_classes [OF sorted bound]
  show ?thesis
    using eq [of "''!!''"] eq [of "''!''"] eq [of "''.''"] eq [of "''''"] unfolding w by simp
qed

lemma listing_filter_flag:
  "filter (\<lambda>r. r_flag r = f) (listing st) = filter (\<lambda>r. r_flag r = f) (added_rows st)"
proof -
  let ?g = "\<lambda>r. - int (r_weight r)"
  have conv: "filter (\<lambda>r. r_flag r = f) xs = filter (\<lambda>r. ?g r = - int (weight_of_flag f)) xs"
    if ok: "\<forall>r \<in> set xs. row_ok r" and f: "f \<in> {''!!'', ''!'', ''.'', ''''}" for xs
  proof (rule filter_cong [OF refl])
    fix r assume "r \<in> set xs"
    with ok have r: "r_flag r \<in> {''!!'', ''!'', ''.'', ''''}" "r_weight r = weight_of_flag (r_flag r)"
      by (auto simp: row_ok_def)
    from f r(1) show "(r_flag r = f) = (?g r = - int (weight_of_flag f))"
      unfolding r(2)
      by (auto simp: weight_of_flag_def WEIGHT_NONE_def WEIGHT_HIDDEN_def WEIGHT_MINOR_def WEIGHT_MAJOR_def)
  qed
  have okA: "\<forall>r \<in> set (added_rows st). row_ok r" using added_rows_ok by blast
  have okL: "\<forall>r \<in> set (listing st). row_ok r" using added_rows_ok by (simp add: listing_set)
  show ?thesis
  proof (cases "f \<in> {''!!'', ''!'', ''.'', ''''}")
    case True
    have "filter (\<lambda>r. r_flag r = f) (listing st) =
        filter (\<lambda>r. ?g r = - int (weight_of_flag f)) (listing st)"
      by (rule conv [OF okL True])
    also have "\<dots> = filter (\<lambda>r. ?g r = - int (weight_of_flag f)) (added_rows st)"
      unfolding listing_def sortItems_descending_def by (rule sort_key_stable)
    also have "\<dots> = filter (\<lambda>r. r_flag r = f) (added_rows st)"
      by (rule conv [OF okA True, symmetric])
    finally show ?thesis .
  next
    case False
    with okA okL have "\<forall>r \<in> set (added_rows st). r_flag r \<noteq> f" "\<forall>r \<in> set (listing st). r_flag r \<noteq> f"
      by (auto simp: row_ok_def)
    then show ?thesis by (simp add: filter_empty_conv)
  qed
qed

lemma conflict_entries_flag:
  "e \<in> set (conflict_entries st) \<Longrightarrow>
     r_flag (make_row (conflict_flags (base_exts (map winner_entry (items_of st)))) e) \<in> {''!!'', ''!''}"
  using brush_flag [of "base_exts (map winner_entry (items_of st))" "e_base e"]
  by (auto simp: conflict_entries_def r_flag_make_row)

lemma normal_entries_flag:
  "e \<in> set (normal_entries st) \<Longrightarrow>
     r_flag (make_row (conflict_flags (base_exts (map winner_entry (items_of st)))) e) = ''''"
  using no_brush_flag [of "base_exts (map winner_entry (items_of st))" "e_base e"]
  by (auto simp: normal_entries_def r_flag_make_row)

lemma hidden_only_entries_flag:
  "e \<in> set (hidden_only_entries st) \<Longrightarrow> r_flag (make_row flags e) = ''.''"
  by (auto simp: hidden_only_entries_def r_flag_make_row)

lemma added_rows_class_sorted:
  "sorted (map (rel_key \<circ> r_entry) (filter (\<lambda>r. r_flag r = f) (added_rows st)))"
proof -
  let ?mk = "make_row (conflict_flags (base_exts (map winner_entry (items_of st))))"
  let ?P = "\<lambda>e. r_flag (?mk e) = f"
  have shape: "map (rel_key \<circ> r_entry) (filter (\<lambda>r. r_flag r = f) (added_rows st)) =
      map rel_key (filter ?P (conflict_entries st)) @ map rel_key (filter ?P (normal_entries st)) @
      map rel_key (filter ?P (hidden_only_entries st))"
    by (simp add: added_rows_def filter_map comp_def r_entry_make_row)
  have sC: "sorted (map rel_key (filter ?P (conflict_entries st)))"
    by (rule sorted_filter) (simp add: conflict_entries_def)
  have sN: "sorted (map rel_key (filter ?P (normal_entries st)))"
    by (rule sorted_filter) (simp add: normal_entries_def)
  have sH: "sorted (map rel_key (filter ?P (hidden_only_entries st)))"
    by (rule sorted_filter) (simp add: hidden_only_entries_def)
  have fC: "\<forall>e \<in> set (conflict_entries st). r_flag (?mk e) = ''!!'' \<or> r_flag (?mk e) = ''!''"
    using conflict_entries_flag [of _ st] by auto
  have fN: "\<forall>e \<in> set (normal_entries st). r_flag (?mk e) = ''''"
    using normal_entries_flag [of _ st] by auto
  have fH: "\<forall>e \<in> set (hidden_only_entries st). r_flag (?mk e) = ''.''"
    using hidden_only_entries_flag [of _ st] by auto
  have eC: "filter ?P (conflict_entries st) = []" if "f \<noteq> ''!!''" "f \<noteq> ''!''"
    unfolding filter_empty_conv using fC that by metis
  have eN: "filter ?P (normal_entries st) = []" if "f \<noteq> ''''"
    unfolding filter_empty_conv using fN that by metis
  have eH: "filter ?P (hidden_only_entries st) = []" if "f \<noteq> ''.''"
    unfolding filter_empty_conv using fH that by metis
  consider "f = ''!!'' \<or> f = ''!''" | "f = ''''" | "f = ''.''"
    | "f \<noteq> ''!!''" "f \<noteq> ''!''" "f \<noteq> ''''" "f \<noteq> ''.''"
    by blast
  then show ?thesis
  proof cases
    case 1
    then have "f \<noteq> ''''" "f \<noteq> ''.''" by auto
    with sC eN eH show ?thesis unfolding shape by simp
  next
    case 2
    then have "f \<noteq> ''!!''" "f \<noteq> ''!''" "f \<noteq> ''.''" by auto
    with sN eC eH show ?thesis unfolding shape by simp
  next
    case 3
    then have "f \<noteq> ''!!''" "f \<noteq> ''!''" "f \<noteq> ''''" by auto
    with sH eC eN show ?thesis unfolding shape by simp
  next
    case 4
    with eC eN eH show ?thesis unfolding shape by simp
  qed
qed

text \<open>
  C8 (as amended). In the listing the rows flagged \<open>!!\<close> come first, then the rows flagged
  \<open>!\<close>, then the hidden rows (flag \<open>.\<close>), then the rows without a flag; within each of
  these four classes the rows are in ascending order of the folded relative path.
\<close>

theorem listing_order:
  fixes roots :: "override_root list"
  defines "L \<equiv> refresh roots"
  shows "L = filter (\<lambda>r. r_flag r = ''!!'') L @ filter (\<lambda>r. r_flag r = ''!'') L @
             filter (\<lambda>r. r_flag r = ''.'') L @ filter (\<lambda>r. r_flag r = '''') L \<and>
         (\<forall>r \<in> set L. (r_flag r = ''.'') = e_hidden (r_entry r)) \<and>
         (\<forall>f. sorted (map (rel_key \<circ> r_entry) (filter (\<lambda>r. r_flag r = f) L)))"
proof -
  let ?st = "scan_all (mod_entries_of roots) (game_entry_of roots)"
  have L: "L = listing ?st" by (simp add: L_def refresh_def)
  have classes: "L = filter (\<lambda>r. r_flag r = ''!!'') L @ filter (\<lambda>r. r_flag r = ''!'') L @
             filter (\<lambda>r. r_flag r = ''.'') L @ filter (\<lambda>r. r_flag r = '''') L"
    unfolding L by (rule listing_classes)
  have hidden: "\<forall>r \<in> set L. (r_flag r = ''.'') = e_hidden (r_entry r)"
    unfolding L listing_set using added_rows_ok [of _ ?st] by (auto simp: row_ok_def)
  have sorted: "sorted (map (rel_key \<circ> r_entry) (filter (\<lambda>r. r_flag r = f) L))" for f
    unfolding L listing_filter_flag by (rule added_rows_class_sorted)
  from classes hidden sorted show ?thesis by blast
qed

theorem listing_order_witness:
  "map (\<lambda>r. (r_flag r, e_rel (r_entry r)))
     (refresh [(''Mod: A'', [([], ''a.tga''), ([], ''b.tga.mohidden''), ([], ''c.tpc''), ([], ''d.tpc'')]),
               (''Game Override'', [([], ''c.tga''), ([], ''d.txi'')])])
     = [(''!!'', ''d.tpc''), (''!!'', ''d.txi''), (''!'', ''c.tga''), (''!'', ''c.tpc''),
        (''.'', ''b.tga.mohidden''), ('''', ''a.tga'')] \<and>
   sorted (map (rel_key \<circ> r_entry) (filter (\<lambda>r. r_flag r = ''!'')
     (refresh [(''Mod: A'', [([], ''a.tga''), ([], ''b.tga.mohidden''), ([], ''c.tpc''), ([], ''d.tpc'')]),
               (''Game Override'', [([], ''c.tga''), ([], ''d.txi'')])])))"
proof -
  let ?roots = "[(''Mod: A'', [([], ''a.tga''), ([], ''b.tga.mohidden''), ([], ''c.tpc''), ([], ''d.tpc'')]),
               (''Game Override'', [([], ''c.tga''), ([], ''d.txi'')])]"
  have rows: "map (\<lambda>r. (r_flag r, e_rel (r_entry r))) (refresh ?roots)
     = [(''!!'', ''d.tpc''), (''!!'', ''d.txi''), (''!'', ''c.tga''), (''!'', ''c.tpc''),
        (''.'', ''b.tga.mohidden''), ('''', ''a.tga'')]"
    by code_simp
  from listing_order [of ?roots] rows show ?thesis by blast
qed

text \<open>
  The descending sort on the weights puts a hidden row (weight 1) before a row without
  conflict (weight 0).
\<close>

theorem listing_hidden_before_normal_counterexample:
  "map (\<lambda>r. (e_hidden (r_entry r), e_rel (r_entry r)))
     (refresh [(''Mod: A'', [([], ''a.tga''), ([], ''b.tga.mohidden'')])])
     = [(True, ''b.tga.mohidden''), (False, ''a.tga'')]"
  by code_simp

section \<open>Properties of the thumbnail decoder\<close>






section \<open>Properties of hiding and unhiding\<close>

text \<open>
  C10. Unhiding (\<open>currently_hidden\<close> is true) a path whose file name does not end with
  \<open>.mohidden\<close> attempts no rename and leaves the file system as it was.
\<close>

theorem toggle_unhide_without_marker:
  "\<not> endswith (snd path) ''.mohidden'' \<Longrightarrow> toggle_hidden fs path True = (fs, [])"
  by (simp add: toggle_hidden_def)

theorem toggle_unhide_without_marker_witness:
  "toggle_hidden [(''override'', ''a.tga'') \<mapsto> (1 :: nat)] (''override'', ''a.tga'') True
     = ([(''override'', ''a.tga'') \<mapsto> 1], [])"
proof -
  have "\<not> endswith (snd (''override'', ''a.tga'')) ''.mohidden''" by (simp add: endswith_def)
  then show ?thesis by (rule toggle_unhide_without_marker)
qed

lemma toggle_examples:
  "snd (toggle_hidden [(''override'', ''a.tga.mohidden'') \<mapsto> (1 :: nat)] (''override'', ''a.tga.mohidden'') True)
     = [((''override'', ''a.tga.mohidden''), (''override'', ''a.tga''))]"
  "snd (toggle_hidden [(''override'', ''a.tga'') \<mapsto> (1 :: nat)] (''override'', ''a.tga'') False)
     = [((''override'', ''a.tga''), (''override'', ''a.tga.mohidden''))]"
  by (simp_all add: toggle_hidden_def try_rename_def rename_def with_name_def endswith_def)

section \<open>Properties of the classifier and the fixer\<close>

lemmas tree_simps = valid_map_def valid_keys_def all_valid_exts_def valid_top_def ignored_exts_def
  restricted_dirs_def splitext_ext_def endswith_any_def find_dirs_named_def has_restricted_dir_def
  has_mod_file_def wrapper_folder_def stray_folder_def

lemma lower_valid_keys: "k \<in> set valid_keys \<Longrightarrow> lower k = k"
  by (auto simp: valid_keys_def valid_map_def str_simps)

lemma iter_dirs_root: "e \<in> set t \<Longrightarrow> is_directory e \<Longrightarrow> e \<in> set (iter_dirs t)"
  by (induction t rule: iter_dirs.induct) auto




text \<open>
  C2 (as amended). When no directory is named \<open>tslpatchdata\<close>, no directory bears the
  restricted name \<open>data\<close>, and neither the wrapper-folder rule nor the stray-folder rule
  applies, a root-level directory bearing a name of the valid map makes the tree Valid.
  A tree without \<open>tslpatchdata\<close> that holds a directory named \<open>data\<close> is Invalid.
\<close>

theorem canonical_dir_valid:
  "(find_dirs_named t ''tslpatchdata'' = [] \<and> \<not> has_restricted_dir t \<and> \<not> wrapper_folder t \<and>
    \<not> stray_folder t \<and> (\<exists>e \<in> set t. is_directory e \<and> lower (node_name e) \<in> set valid_keys)
      \<longrightarrow> dataLooksValid t = VALID) \<and>
   (find_dirs_named t ''tslpatchdata'' = [] \<and> (\<exists>d \<in> set (iter_dirs t). lower (node_name d) = ''data'')
      \<longrightarrow> dataLooksValid t = INVALID)"
proof -
  have valid: "dataLooksValid t = VALID"
    if "find_dirs_named t ''tslpatchdata'' = []" "\<not> has_restricted_dir t" "\<not> wrapper_folder t"
      "\<not> stray_folder t" "e \<in> set t" "is_directory e" "lower (node_name e) \<in> set valid_keys" for e
  proof -
    let ?folder = "lower (node_name e)"
    from that(5,6) have "e \<in> set (iter_dirs t)" by (rule iter_dirs_root)
    moreover have "lower ?folder = ?folder" using that(7) by (rule lower_valid_keys)
    ultimately have "find_dirs_named t ?folder \<noteq> []"
      by (auto simp: find_dirs_named_def filter_empty_conv)
    with that(7) have "\<exists>folder \<in> set valid_keys. find_dirs_named t folder \<noteq> []" by blast
    with that(1-4) show ?thesis by (simp add: dataLooksValid_def)
  qed
  have invalid: "dataLooksValid t = INVALID"
    if "find_dirs_named t ''tslpatchdata'' = []" "d \<in> set (iter_dirs t)" "lower (node_name d) = ''data''"
    for d
  proof -
    from that(2,3) have "has_restricted_dir t"
      by (auto simp: has_restricted_dir_def restricted_dirs_def)
    with that(1) show ?thesis by (simp add: dataLooksValid_def)
  qed
  from valid invalid show ?thesis by blast
qed

theorem canonical_dir_valid_witness:
  "dataLooksValid [Dir ''modules'' [File ''area.mod'' ()]] = VALID"
proof -
  let ?t = "[Dir ''modules'' [File ''area.mod'' ()]]"
  have "find_dirs_named ?t ''tslpatchdata'' = []" by (simp add: find_dirs_named_def str_simps)
  moreover have "\<not> has_restricted_dir ?t" by (simp add: tree_simps str_simps)
  moreover have "\<not> wrapper_folder ?t" by (simp add: tree_simps str_simps)
  moreover have "\<not> stray_folder ?t" by (simp add: tree_simps str_simps)
  moreover have "\<exists>e \<in> set ?t. is_directory e \<and> lower (node_name e) \<in> set valid_keys"
    by (simp add: tree_simps str_simps)
  ultimately show ?thesis using canonical_dir_valid [of ?t] by blast
qed

text \<open>The name \<open>data\<close> is restricted: the tree holding only \<open>data/x.bif\<close> is Invalid.\<close>

theorem data_dir_counterexample:
  "dataLooksValid [Dir ''data'' [File ''x.bif'' ()]] = INVALID"
  by (simp add: dataLooksValid_def tree_simps str_simps)









subsection \<open>The single-folder rule\<close>




















end
